theory Spec2Isabelle
  imports Complex_Main "HOL-Library.Word"
begin

section \<open>Data of the content script\<close>

text \<open>
  A JavaScript string is a sequence of UTF-16 code units. The regular expression of
  \<open>isArabic\<close> has no \<open>u\<close> flag, so it is matched code unit by code unit.
\<close>

type_synonym jsstring = "16 word list"

text \<open>Any value thrown by the browser, the extension API or the classifier.\<close>

datatype error = Thrown

subsection \<open>Text filter\<close>

text \<open>
  The character class of the regular expression, on one code unit: the ranges
  0600-06FF, 0750-077F and 08A0-08FF (hexadecimal).
\<close>

definition arabicUnit :: "16 word \<Rightarrow> bool" where
  "arabicUnit u \<longleftrightarrow>
     (0x0600 \<le> u \<and> u \<le> 0x06FF) \<or> (0x0750 \<le> u \<and> u \<le> 0x077F) \<or> (0x08A0 \<le> u \<and> u \<le> 0x08FF)"

text \<open>\<open>RegExp.prototype.test\<close> for a one-character class: some unit of the string matches.\<close>

fun regexTest :: "(16 word \<Rightarrow> bool) \<Rightarrow> jsstring \<Rightarrow> bool" where
  "regexTest cls [] = False"
| "regexTest cls (u # us) = (if cls u then True else regexTest cls us)"

text \<open>\<open>text || ''\<close>: an absent value (\<open>undefined\<close>, \<open>null\<close>) and the empty string give \<open>''\<close>.\<close>

definition orEmpty :: "jsstring option \<Rightarrow> jsstring" where
  "orEmpty t = (case t of None \<Rightarrow> [] | Some s \<Rightarrow> (if s = [] then [] else s))"

definition isArabic :: "jsstring option \<Rightarrow> bool" where
  "isArabic t = regexTest arabicUnit (orEmpty t)"

text \<open>
  The code points of a string, as ECMAScript reads them (\<open>CodePointAt\<close>): a high
  surrogate followed by a low surrogate is one supplementary code point, every other
  code unit is the code point of its own value. This is the reading of the
  specification's words "code point"; \<open>isArabic\<close> above does not use it.
\<close>

definition highSurrogate :: "16 word \<Rightarrow> bool" where
  "highSurrogate u \<longleftrightarrow> 0xD800 \<le> u \<and> u \<le> 0xDBFF"

definition lowSurrogate :: "16 word \<Rightarrow> bool" where
  "lowSurrogate u \<longleftrightarrow> 0xDC00 \<le> u \<and> u \<le> 0xDFFF"

fun codePoints :: "jsstring \<Rightarrow> nat list" where
  "codePoints [] = []"
| "codePoints [u] = [unat u]"
| "codePoints (u # v # us) =
     (if highSurrogate u \<and> lowSurrogate v
      then (0x10000 + (unat u - 0xD800) * 0x400 + (unat v - 0xDC00)) # codePoints us
      else unat u # codePoints (v # us))"

text \<open>The three Unicode blocks the specification names, on code points.\<close>

definition arabicCodePoint :: "nat \<Rightarrow> bool" where
  "arabicCodePoint c \<longleftrightarrow>
     (0x0600 \<le> c \<and> c \<le> 0x06FF) \<or> (0x0750 \<le> c \<and> c \<le> 0x077F) \<or> (0x08A0 \<le> c \<and> c \<le> 0x08FF)"

subsection \<open>Visibility filter\<close>

text \<open>
  \<open>getBoundingClientRect\<close> returns a \<open>DOMRect\<close> of finite numbers; the viewport sizes
  are numbers too. They are compared only, so they are modelled as reals. The field
  \<open>top\<close> of the rectangle is \<open>rectTop\<close> here.
\<close>

record domRect =
  width :: real
  height :: real
  rectTop :: real
  bottom :: real
  left :: real
  right :: real

record viewport =
  innerHeight :: real
  innerWidth :: real
  clientHeight :: real
  clientWidth :: real

text \<open>\<open>a || b\<close> on numbers: \<open>b\<close> when \<open>a\<close> is 0.\<close>

definition orNum :: "real \<Rightarrow> real \<Rightarrow> real" where
  "orNum a b = (if a = 0 then b else a)"

definition viewportHeight :: "viewport \<Rightarrow> real" where
  "viewportHeight vp = orNum (innerHeight vp) (clientHeight vp)"

definition viewportWidth :: "viewport \<Rightarrow> real" where
  "viewportWidth vp = orNum (innerWidth vp) (clientWidth vp)"

definition isElementInViewport :: "viewport \<Rightarrow> domRect \<Rightarrow> bool" where
  "isElementInViewport vp rect =
     (let vh = viewportHeight vp; vw = viewportWidth vp
      in width rect > 0 \<and> height rect > 0 \<and> rectTop rect < vh \<and> bottom rect > 0 \<and>
         left rect < vw \<and> right rect > 0)"

subsection \<open>Match records and the persisted list\<close>

text \<open>
  The object built by \<open>processVideo\<close> and stored under the key \<open>tt_matches\<close>. \<open>poster\<close>
  is \<open>null\<close> (here \<open>None\<close>) when the element has no poster.
\<close>

record matchRecord =
  url :: jsstring
  description :: jsstring
  prob :: real
  collectedAt :: jsstring
  page :: jsstring
  poster :: "jsstring option"

subsection \<open>Detections of the classifier\<close>

datatype gender = Male | Female

text \<open>
  One detection of \<open>withAgeAndGender\<close>. \<open>genderProbability\<close> is \<open>None\<close> for a value
  that is missing or not a number; other scores are compared only, so they are reals.
\<close>

record detection =
  gender :: gender
  genderProbability :: "real option"

text \<open>The object \<open>{ isFemale, prob }\<close> returned by \<open>detectFemaleOnFrame\<close>; its \<open>prob\<close>
  is the local \<open>maxProb\<close>.\<close>

record verdict =
  isFemale :: bool
  maxProb :: real

subsection \<open>Elements, document and browser\<close>

text \<open>
  What one \<open>video\<close> element shows to the script during one call of the pipeline: its own
  attributes, and the answers of the collaborators that the pipeline consults for it
  (the two DOM searches, the canvas, the classifier on its frame).
\<close>

record video =
  isHTMLVideoElement :: bool
  currentSrc :: jsstring
  src :: jsstring
  scanKey :: "jsstring option"
  randomKey :: jsstring
  boundingClientRect :: domRect
  extractedDescription :: jsstring
  foundVideoUrl :: jsstring
  posterAttr :: jsstring
  videoWidth :: nat
  videoHeight :: nat
  canvasContext :: bool
  drawImageThrows :: bool
  detectAllFaces :: "error + detection list option"

text \<open>The document at the time of a scan pass.\<close>

record document =
  view :: viewport
  href :: jsstring
  now :: jsstring
  videos :: "video list"

text \<open>The module-level object \<open>STATE\<close>.\<close>

record scanState =
  scanning :: bool
  intervalId :: "nat option"
  faceApiReady :: bool
  processing :: "jsstring set"

text \<open>
  The calls that leave the script, in the order they are made: the script element
  appended by \<open>injectFaceApi\<close>, the two \<open>loadFromUri\<close> calls, the classifier call of
  \<open>detectFemaleOnFrame\<close>, a run of \<open>scanOnce\<close>, and the interval timer calls.
\<close>

datatype net = TinyFaceDetector | AgeGenderNet

datatype effect =
    InjectScript
  | LoadModel net
  | DetectFaces
  | ScanPass
  | SetInterval nat
  | ClearInterval nat

text \<open>
  A call of \<open>processVideo\<close> that has started and waits at one of its suspension points,
  with the locals it will use when it goes on:
  \<^item> \<open>AwaitDetect video key description early\<close> waits at \<open>await detectFemaleOnFrame(video)\<close>;
    \<open>early\<close> is the result when \<open>detectFemaleOnFrame\<close> returned before its own
    \<open>await\<close>, and \<open>None\<close> when it called the classifier and waits for it;
  \<^item> \<open>AwaitGet key record\<close> waits inside \<open>saveMatch\<close> for the callback of
    \<open>chrome.storage.local.get\<close>;
  \<^item> \<open>AwaitSet key list\<close> waits for the callback of \<open>chrome.storage.local.set\<close>, which
    was given \<open>list\<close>.
\<close>

datatype task =
    AwaitDetect video jsstring jsstring "verdict option"
  | AwaitGet jsstring matchRecord
  | AwaitSet jsstring "matchRecord list"

text \<open>
  \<open>STATE\<close> together with what the script reads and writes outside itself:
  \<open>window.faceapi\<close>, the storage slot \<open>tt_matches\<close> (absent until first written),
  whether the extension context still exists (the \<open>chrome\<close> calls throw when it does
  not), the armed interval timers, the log of effects, and the pipelines that a scan
  pass has started and that have not yet ended, in the order they were started.
\<close>

record world =
  STATE :: scanState
  faceapi :: bool
  tt_matches :: "matchRecord list option"
  extensionAlive :: bool
  timers :: "nat list"
  nextTimerId :: nat
  effects :: "effect list"
  pipelines :: "task list"

definition femaleProbThreshold :: real where
  "femaleProbThreshold = 0.7"

definition scanIntervalMs :: nat where
  "scanIntervalMs = 3500"

definition initialWorld :: world where
  "initialWorld =
     \<lparr>STATE = \<lparr>scanning = False, intervalId = None, faceApiReady = False, processing = {}\<rparr>,
      faceapi = False, tt_matches = None, extensionAlive = True,
      timers = [], nextTimerId = 1, effects = [], pipelines = []\<rparr>"

definition emit :: "effect \<Rightarrow> world \<Rightarrow> world" where
  "emit e w = w\<lparr>effects := effects w @ [e]\<rparr>"

section \<open>Operations\<close>

subsection \<open>injectFaceApi\<close>

text \<open>How the script host and the model server answer one injection.\<close>

record loader =
  scriptLoads :: bool
  definesFaceapi :: bool
  tinyFaceDetectorLoads :: bool
  ageGenderNetLoads :: bool

text \<open>
  The synchronous part of \<open>injectFaceApi\<close>, up to \<open>appendChild\<close>. The result is
  \<open>Some\<close> when the promise is settled at once (resolved with \<open>true\<close> when the flag is
  set, rejected when \<open>chrome.runtime.getURL\<close> throws) and \<open>None\<close> when the script
  element was appended and the promise waits for \<open>onload\<close> or \<open>onerror\<close>.
\<close>

definition injectFaceApi_begin :: "world \<Rightarrow> (error + bool) option \<times> world" where
  "injectFaceApi_begin w =
     (if faceApiReady (STATE w) then (Some (Inr True), w)
      else if \<not> extensionAlive w then (Some (Inl Thrown), w)
      else (None, emit InjectScript w))"

text \<open>
  The handlers \<open>s.onerror\<close> and \<open>s.onload\<close> of one appended script element. \<open>onload\<close>
  does not look at \<open>STATE.faceApiReady\<close> before it loads the two networks.
\<close>

definition injectFaceApi_settle :: "loader \<Rightarrow> world \<Rightarrow> (error + bool) \<times> world" where
  "injectFaceApi_settle ld w =
     (if \<not> scriptLoads ld then (Inl Thrown, w)
      else
        let w1 = w\<lparr>faceapi := faceapi w \<or> definesFaceapi ld\<rparr> in
        if \<not> faceapi w1 then (Inl Thrown, w1)
        else
          let w2 = emit (LoadModel TinyFaceDetector) w1 in
          if \<not> tinyFaceDetectorLoads ld then (Inl Thrown, w2)
          else
            let w3 = emit (LoadModel AgeGenderNet) w2 in
            if \<not> ageGenderNetLoads ld then (Inl Thrown, w3)
            else (Inr True, w3\<lparr>STATE := (STATE w3)\<lparr>faceApiReady := True\<rparr>\<rparr>))"

text \<open>\<open>await injectFaceApi()\<close> with nothing else running in between.\<close>

definition injectFaceApi :: "loader \<Rightarrow> world \<Rightarrow> (error + bool) \<times> world" where
  "injectFaceApi ld w =
     (case injectFaceApi_begin w of
        (Some r, w1) \<Rightarrow> (r, w1)
      | (None, w1) \<Rightarrow> injectFaceApi_settle ld w1)"

text \<open>
  Callers of \<open>injectFaceApi\<close> interleaved on the one event thread: a call runs the
  synchronous part, and each appended script element later fires \<open>onload\<close> or
  \<open>onerror\<close> once. The second component counts the script elements still waiting.
\<close>

datatype event = CallInject | ScriptSettles loader

fun step :: "event \<Rightarrow> world \<times> nat \<Rightarrow> world \<times> nat" where
  "step CallInject (w, pending) =
     (case injectFaceApi_begin w of
        (Some r, w1) \<Rightarrow> (w1, pending)
      | (None, w1) \<Rightarrow> (w1, Suc pending))"
| "step (ScriptSettles ld) (w, pending) =
     (case pending of
        0 \<Rightarrow> (w, 0)
      | Suc n \<Rightarrow> (snd (injectFaceApi_settle ld w), n))"

definition run :: "event list \<Rightarrow> world \<times> nat \<Rightarrow> world \<times> nat" where
  "run evs c = fold step evs c"

definition injections :: "world \<Rightarrow> nat" where
  "injections w = count_list (effects w) InjectScript"

definition modelLoads :: "world \<Rightarrow> nat" where
  "modelLoads w = count_list (effects w) (LoadModel TinyFaceDetector)"

subsection \<open>detectFemaleOnFrame\<close>

text \<open>\<open>d.genderProbability || 0\<close>.\<close>

definition orZero :: "real option \<Rightarrow> real" where
  "orZero p = (case p of None \<Rightarrow> 0 | Some x \<Rightarrow> (if x = 0 then 0 else x))"

text \<open>The loop over the detections, with \<open>maxProb\<close> as accumulator.\<close>

fun maxFemaleProb :: "detection list \<Rightarrow> real \<Rightarrow> real" where
  "maxFemaleProb [] m = m"
| "maxFemaleProb (d # ds) m =
     maxFemaleProb ds (if gender d = Female then max m (orZero (genderProbability d)) else m)"

definition negative :: verdict where
  "negative = \<lparr>isFemale = False, maxProb = 0\<rparr>"

text \<open>
  Every early return and the \<open>catch\<close> give \<open>negative\<close>. The classifier is called
  (\<open>DetectFaces\<close>) only after the size and canvas checks.
\<close>

definition detectFemaleOnFrame :: "video \<Rightarrow> world \<Rightarrow> verdict \<times> world" where
  "detectFemaleOnFrame v w =
     (if \<not> faceApiReady (STATE w) \<or> \<not> faceapi w then (negative, w)
      else
        let wd = max 1 (videoWidth v); h = max 1 (videoHeight v) in
        if wd < 2 \<or> h < 2 then (negative, w)
        else if \<not> canvasContext v then (negative, w)
        else if drawImageThrows v then (negative, w)
        else
          let w1 = emit DetectFaces w in
          case detectAllFaces v of
            Inl e \<Rightarrow> (negative, w1)
          | Inr None \<Rightarrow> (negative, w1)
          | Inr (Some detections) \<Rightarrow>
              if length detections = 0 then (negative, w1)
              else
                let m = maxFemaleProb detections 0
                in (\<lparr>isFemale = (m \<ge> femaleProbThreshold), maxProb = m\<rparr>, w1))"

text \<open>
  The same function in its two parts. The first runs when it is called, up to the call
  of the classifier: \<open>Some\<close> is an early return, \<open>None\<close> means the classifier was called
  and the function waits at its \<open>await\<close>. The second runs when the classifier has
  answered.
\<close>

definition detectFemaleOnFrame_begin :: "video \<Rightarrow> world \<Rightarrow> verdict option \<times> world" where
  "detectFemaleOnFrame_begin v w =
     (if \<not> faceApiReady (STATE w) \<or> \<not> faceapi w then (Some negative, w)
      else
        let wd = max 1 (videoWidth v); h = max 1 (videoHeight v) in
        if wd < 2 \<or> h < 2 then (Some negative, w)
        else if \<not> canvasContext v then (Some negative, w)
        else if drawImageThrows v then (Some negative, w)
        else (None, emit DetectFaces w))"

definition detectFemaleOnFrame_end :: "video \<Rightarrow> verdict" where
  "detectFemaleOnFrame_end v =
     (case detectAllFaces v of
        Inl e \<Rightarrow> negative
      | Inr None \<Rightarrow> negative
      | Inr (Some detections) \<Rightarrow>
          if length detections = 0 then negative
          else
            let m = maxFemaleProb detections 0
            in \<lparr>isFemale = (m \<ge> femaleProbThreshold), maxProb = m\<rparr>)"

subsection \<open>saveMatch\<close>

text \<open>The callback of \<open>list.some\<close>; \<open>record.description\<close> is truthy when it is not empty.\<close>

definition duplicateOf :: "matchRecord \<Rightarrow> matchRecord \<Rightarrow> bool" where
  "duplicateOf record x \<longleftrightarrow>
     url x = url record \<or> (description record \<noteq> [] \<and> description x = description record)"

definition storedList :: "world \<Rightarrow> matchRecord list" where
  "storedList w = (case tt_matches w of Some l \<Rightarrow> l | None \<Rightarrow> [])"

definition saveMatch :: "matchRecord \<Rightarrow> world \<Rightarrow> (error + bool) \<times> world" where
  "saveMatch record w =
     (if \<not> extensionAlive w then (Inl Thrown, w)
      else
        let list = storedList w;
            exists = list_ex (duplicateOf record) list
        in if \<not> exists then (Inr True, w\<lparr>tt_matches := Some (list @ [record])\<rparr>)
           else (Inr False, w))"

subsection \<open>processVideo and scanOnce\<close>

text \<open>\<open>video.currentSrc || video.src || video.dataset.scanKey || Math.random()...\<close>.\<close>

definition identityKey :: "video \<Rightarrow> jsstring" where
  "identityKey v =
     (if currentSrc v \<noteq> [] then currentSrc v
      else if src v \<noteq> [] then src v
      else case scanKey v of
             Some k \<Rightarrow> (if k \<noteq> [] then k else randomKey v)
           | None \<Rightarrow> randomKey v)"

definition addProcessing :: "jsstring \<Rightarrow> world \<Rightarrow> world" where
  "addProcessing key w = w\<lparr>STATE := (STATE w)\<lparr>processing := insert key (processing (STATE w))\<rparr>\<rparr>"

definition deleteProcessing :: "jsstring \<Rightarrow> world \<Rightarrow> world" where
  "deleteProcessing key w = w\<lparr>STATE := (STATE w)\<lparr>processing := processing (STATE w) - {key}\<rparr>\<rparr>"

definition buildRecord :: "document \<Rightarrow> video \<Rightarrow> jsstring \<Rightarrow> real \<Rightarrow> matchRecord" where
  "buildRecord doc v desc p =
     \<lparr>url = foundVideoUrl v, description = desc, prob = p, collectedAt = now doc,
      page = href doc, poster = (if posterAttr v = [] then None else Some (posterAttr v))\<rparr>"

text \<open>
  One run of the pipeline from its call to its end, taken alone: nothing else runs at
  its two \<open>await\<close>s. The last case is the \<open>catch\<close> block, which logs and does nothing else.
\<close>

definition processVideo :: "document \<Rightarrow> video \<Rightarrow> world \<Rightarrow> world" where
  "processVideo doc v w =
     (if \<not> isHTMLVideoElement v then w
      else
        let key = identityKey v in
        if key \<in> processing (STATE w) then w
        else
          let w1 = addProcessing key w in
          if \<not> isElementInViewport (view doc) (boundingClientRect v) then deleteProcessing key w1
          else
            let desc = extractedDescription v in
            if \<not> isArabic (Some desc) then deleteProcessing key w1
            else
              let (res, w2) = detectFemaleOnFrame v w1 in
              if \<not> isFemale res then deleteProcessing key w2
              else
                case saveMatch (buildRecord doc v desc (maxProb res)) w2 of
                  (Inr saved, w3) \<Rightarrow> deleteProcessing key w3
                | (Inl e, w3) \<Rightarrow> w3)"

text \<open>
  The same pipeline in the parts that the event loop runs one at a time. A call of
  \<open>processVideo\<close> runs at once up to \<open>await detectFemaleOnFrame(video)\<close>, that is through
  the synchronous part of \<open>detectFemaleOnFrame\<close>; it ends there (\<open>None\<close>) when a filter
  rejected the element, and otherwise waits.
\<close>

definition processVideo_begin :: "document \<Rightarrow> video \<Rightarrow> world \<Rightarrow> task option \<times> world" where
  "processVideo_begin doc v w =
     (if \<not> isHTMLVideoElement v then (None, w)
      else
        let key = identityKey v in
        if key \<in> processing (STATE w) then (None, w)
        else
          let w1 = addProcessing key w in
          if \<not> isElementInViewport (view doc) (boundingClientRect v)
          then (None, deleteProcessing key w1)
          else
            let desc = extractedDescription v in
            if \<not> isArabic (Some desc) then (None, deleteProcessing key w1)
            else
              let (early, w2) = detectFemaleOnFrame_begin v w1
              in (Some (AwaitDetect v key desc early), w2))"

text \<open>
  A waiting pipeline goes on when what it waits for has happened.
  \<^item> After the verdict: a negative verdict releases the key and ends; otherwise the
    record is built and \<open>saveMatch\<close> calls \<open>chrome.storage.local.get\<close>, which throws when
    the extension context is gone (the \<open>catch\<close> block: the pipeline ends, the key stays).
  \<^item> In the callback of \<open>get\<close>, which receives the stored list: a duplicate resolves
    the promise with false, and the key is released; otherwise the record is pushed and
    \<open>chrome.storage.local.set\<close> is called with the longer list.
  \<^item> In the callback of \<open>set\<close> the list given to \<open>set\<close> is the stored one, the promise
    is resolved with true and the key is released.
  No callback arrives once the extension context is gone: the pipeline waits for ever.
\<close>

fun resume :: "document \<Rightarrow> task \<Rightarrow> world \<Rightarrow> task option \<times> world" where
  "resume doc (AwaitDetect v key desc early) w =
     (let res = (case early of Some r \<Rightarrow> r | None \<Rightarrow> detectFemaleOnFrame_end v) in
      if \<not> isFemale res then (None, deleteProcessing key w)
      else
        let record = buildRecord doc v desc (maxProb res) in
        if \<not> extensionAlive w then (None, w)
        else (Some (AwaitGet key record), w))"
| "resume doc (AwaitGet key record) w =
     (if \<not> extensionAlive w then (Some (AwaitGet key record), w)
      else
        let list = storedList w;
            exists = list_ex (duplicateOf record) list
        in if \<not> exists then (Some (AwaitSet key (list @ [record])), w)
           else (None, deleteProcessing key w))"
| "resume doc (AwaitSet key list) w =
     (if \<not> extensionAlive w then (Some (AwaitSet key list), w)
      else (None, deleteProcessing key (w\<lparr>tt_matches := Some list\<rparr>)))"

text \<open>A pipeline taken through at most \<open>n\<close> of its parts with nothing else in between.\<close>

fun runAlone :: "nat \<Rightarrow> document \<Rightarrow> task option \<times> world \<Rightarrow> world" where
  "runAlone n doc (None, w) = w"
| "runAlone 0 doc (Some t, w) = w"
| "runAlone (Suc n) doc (Some t, w) = runAlone n doc (resume doc t w)"

text \<open>
  One pass calls \<open>processVideo\<close> for each video of the document, in document order, and
  does not wait: each call runs up to its first \<open>await\<close> and the pipelines that wait
  there are left pending.
\<close>

definition startPipeline :: "document \<Rightarrow> video \<Rightarrow> world \<Rightarrow> world" where
  "startPipeline doc v w =
     (case processVideo_begin doc v w of
        (None, w1) \<Rightarrow> w1
      | (Some t, w1) \<Rightarrow> w1\<lparr>pipelines := pipelines w1 @ [t]\<rparr>)"

definition scanOnce :: "document \<Rightarrow> world \<Rightarrow> world" where
  "scanOnce doc w = fold (startPipeline doc) (videos doc) (emit ScanPass w)"

text \<open>
  The event loop lets the pending pipeline at position \<open>i\<close> go on by one part.
\<close>

definition resumeAt :: "document \<Rightarrow> nat \<Rightarrow> world \<Rightarrow> world" where
  "resumeAt doc i w =
     (if i < length (pipelines w)
      then (case resume doc (pipelines w ! i) w of
              (None, w1) \<Rightarrow> w1\<lparr>pipelines := take i (pipelines w1) @ drop (Suc i) (pipelines w1)\<rparr>
            | (Some t, w1) \<Rightarrow> w1\<lparr>pipelines := (pipelines w1)[i := t]\<rparr>)
      else w)"

text \<open>
  An \<open>await\<close> on a promise that is already settled gives way to the continuations
  queued before it. After a scan pass these are the pipelines whose
  \<open>detectFemaleOnFrame\<close> returned early; they go on in the order they were started.
\<close>

fun settled :: "task \<Rightarrow> bool" where
  "settled (AwaitDetect v key desc (Some r)) = True"
| "settled (AwaitDetect v key desc None) = False"
| "settled (AwaitGet key record) = False"
| "settled (AwaitSet key list) = False"

fun drain :: "document \<Rightarrow> task list \<Rightarrow> world \<Rightarrow> task list \<times> world" where
  "drain doc [] w = ([], w)"
| "drain doc (t # ts) w =
     (if settled t
      then (case resume doc t w of
              (None, w1) \<Rightarrow> drain doc ts w1
            | (Some t1, w1) \<Rightarrow> (let (rest, w2) = drain doc ts w1 in (t1 # rest, w2)))
      else (let (rest, w2) = drain doc ts w in (t # rest, w2)))"

definition microtasks :: "document \<Rightarrow> world \<Rightarrow> world" where
  "microtasks doc w = (let (rest, w1) = drain doc (pipelines w) w in w1\<lparr>pipelines := rest\<rparr>)"

subsection \<open>startScanning, stopScanning and the message listener\<close>

definition setInterval :: "world \<Rightarrow> nat \<times> world" where
  "setInterval w =
     (nextTimerId w,
      emit (SetInterval (nextTimerId w))
        (w\<lparr>timers := timers w @ [nextTimerId w], nextTimerId := Suc (nextTimerId w)\<rparr>))"

definition clearInterval :: "nat \<Rightarrow> world \<Rightarrow> world" where
  "clearInterval i w = emit (ClearInterval i) (w\<lparr>timers := removeAll i (timers w)\<rparr>)"

text \<open>
  \<open>await injectFaceApi()\<close> is taken with nothing else running in between. At
  \<open>await scanOnce()\<close> the pass has only started its pipelines; the continuations that
  are already due run before \<open>setInterval\<close>.
\<close>

definition startScanning :: "loader \<Rightarrow> document \<Rightarrow> world \<Rightarrow> bool \<times> world" where
  "startScanning ld doc w =
     (if scanning (STATE w) then (True, w)
      else
        case injectFaceApi ld w of
          (Inl e, w1) \<Rightarrow> (False, w1)
        | (Inr ready, w1) \<Rightarrow>
            let w2 = w1\<lparr>STATE := (STATE w1)\<lparr>scanning := True\<rparr>\<rparr>;
                w3 = microtasks doc (scanOnce doc w2);
                (i, w4) = setInterval w3
            in (True, w4\<lparr>STATE := (STATE w4)\<lparr>intervalId := Some i\<rparr>\<rparr>))"

definition stopScanning :: "world \<Rightarrow> bool \<times> world" where
  "stopScanning w =
     (if \<not> scanning (STATE w) then (True, w)
      else
        let w1 = (case intervalId (STATE w) of
                    Some i \<Rightarrow> (if i \<noteq> 0 then clearInterval i w else w)
                  | None \<Rightarrow> w)
        in (True,
            w1\<lparr>STATE := (STATE w1)\<lparr>intervalId := None, scanning := False, processing := {}\<rparr>\<rparr>))"

datatype message = START_SCAN | STOP_SCAN | GET_STATUS | CLEAR_LIST | GET_MATCHES | OtherMessage

text \<open>The objects passed to \<open>sendResponse\<close>, field by field in the order of the source.\<close>

datatype response =
    StartResponse bool bool bool
  | StopResponse bool bool
  | StatusResponse bool bool
  | ClearResponse bool
  | MatchesResponse bool "matchRecord list"

text \<open>The listener; \<open>None\<close> when \<open>sendResponse\<close> is never called.\<close>

definition onMessage :: "loader \<Rightarrow> document \<Rightarrow> message \<Rightarrow> world \<Rightarrow> response option \<times> world" where
  "onMessage ld doc msg w =
     (case msg of
        START_SCAN \<Rightarrow>
          (let (ok, w1) = startScanning ld doc w
           in (Some (StartResponse ok (scanning (STATE w1)) (faceApiReady (STATE w1))), w1))
      | STOP_SCAN \<Rightarrow>
          (let (ok, w1) = stopScanning w
           in (Some (StopResponse ok (scanning (STATE w1))), w1))
      | GET_STATUS \<Rightarrow>
          (Some (StatusResponse (scanning (STATE w)) (faceApiReady (STATE w))), w)
      | CLEAR_LIST \<Rightarrow>
          (if \<not> extensionAlive w then (None, w)
           else (Some (ClearResponse True), w\<lparr>tt_matches := Some []\<rparr>))
      | GET_MATCHES \<Rightarrow>
          (if \<not> extensionAlive w then (None, w)
           else (Some (MatchesResponse True (storedList w)), w))
      | OtherMessage \<Rightarrow> (None, w))"

section \<open>Notions of the specification\<close>

text \<open>
  The scores of the detections of the target category, in the order of the detections.
\<close>

definition femaleScores :: "detection list \<Rightarrow> real list" where
  "femaleScores ds =
     map (\<lambda>d. orZero (genderProbability d)) (filter (\<lambda>d. gender d = Female) ds)"

text \<open>
  The conditions under which \<open>detectFemaleOnFrame\<close> reaches the classifier: the
  capability is initialised, the frame is at least 2 by 2, and the canvas can be drawn.
\<close>

definition classifierRuns :: "video \<Rightarrow> world \<Rightarrow> bool" where
  "classifierRuns v w \<longleftrightarrow>
     faceApiReady (STATE w) \<and> faceapi w \<and> 2 \<le> videoWidth v \<and> 2 \<le> videoHeight v \<and>
     canvasContext v \<and> \<not> drawImageThrows v"

text \<open>The number of runs of \<open>scanOnce\<close> so far.\<close>

definition scanPasses :: "world \<Rightarrow> nat" where
  "scanPasses w = count_list (effects w) ScanPass"

text \<open>
  The pipeline gets as far as \<open>saveMatch\<close>: the element is a video whose key is not in
  flight, it is visible, its description passes the text filter and its frame is
  classified positive.
\<close>

definition reachesStore :: "document \<Rightarrow> video \<Rightarrow> world \<Rightarrow> bool" where
  "reachesStore doc v w \<longleftrightarrow>
     isHTMLVideoElement v \<and> identityKey v \<notin> processing (STATE w) \<and>
     isElementInViewport (view doc) (boundingClientRect v) \<and>
     isArabic (Some (extractedDescription v)) \<and>
     isFemale (fst (detectFemaleOnFrame v (addProcessing (identityKey v) w)))"

section \<open>Example inputs\<close>

text \<open>The strings of the specification's examples, as UTF-16 code units.\<close>

definition marhaba :: jsstring where
  "marhaba = [0x0645, 0x0631, 0x062D, 0x0628, 0x0627]"

definition hello :: jsstring where
  "hello = [0x68, 0x65, 0x6C, 0x6C, 0x6F]"

definition recA :: matchRecord where
  "recA = \<lparr>url = [0x75, 0x31], description = marhaba, prob = 0.82,
           collectedAt = [0x74], page = [0x70], poster = None\<rparr>"

definition recB :: matchRecord where
  "recB = \<lparr>url = [0x75, 0x32], description = marhaba, prob = 0.9,
           collectedAt = [0x74], page = [0x70], poster = None\<rparr>"

definition readyWorld :: world where
  "readyWorld =
     \<lparr>STATE = \<lparr>scanning = False, intervalId = None, faceApiReady = True, processing = {}\<rparr>,
      faceapi = True, tt_matches = None, extensionAlive = True,
      timers = [], nextTimerId = 1, effects = [], pipelines = []\<rparr>"

definition wideView :: viewport where
  "wideView = \<lparr>innerHeight = 800, innerWidth = 1200, clientHeight = 800, clientWidth = 1200\<rparr>"

definition onScreen :: domRect where
  "onScreen = \<lparr>width = 400, height = 700, rectTop = 50, bottom = 750, left = 100, right = 500\<rparr>"

definition flatBox :: domRect where
  "flatBox = \<lparr>width = 400, height = 0, rectTop = 50, bottom = 50, left = 100, right = 500\<rparr>"

definition clip :: video where
  "clip =
     \<lparr>isHTMLVideoElement = True, currentSrc = [0x61], src = [], scanKey = None,
      randomKey = [0x7A], boundingClientRect = onScreen, extractedDescription = marhaba,
      foundVideoUrl = [0x75, 0x31], posterAttr = [], videoWidth = 576, videoHeight = 1024,
      canvasContext = True, drawImageThrows = False,
      detectAllFaces = Inr (Some [\<lparr>gender = Female, genderProbability = Some 0.82\<rparr>])\<rparr>"

definition feed :: document where
  "feed = \<lparr>view = wideView, href = [0x70], now = [0x74], videos = [clip]\<rparr>"

definition blankClip :: video where
  "blankClip =
     \<lparr>isHTMLVideoElement = True, currentSrc = [0x62], src = [], scanKey = None,
      randomKey = [0x7A], boundingClientRect = onScreen, extractedDescription = marhaba,
      foundVideoUrl = [0x75, 0x32], posterAttr = [], videoWidth = 0, videoHeight = 0,
      canvasContext = True, drawImageThrows = False,
      detectAllFaces = Inr (Some [\<lparr>gender = Female, genderProbability = Some 0.82\<rparr>])\<rparr>"

text \<open>
  A tab whose extension was reloaded while the scan was running: the content script and
  its timer go on, the classifier is loaded in the page, the \<open>chrome\<close> calls throw.
\<close>

definition orphanWorld :: world where
  "orphanWorld =
     \<lparr>STATE = \<lparr>scanning = True, intervalId = Some 1, faceApiReady = True, processing = {}\<rparr>,
      faceapi = True, tt_matches = None, extensionAlive = False,
      timers = [1], nextTimerId = 2, effects = [], pipelines = []\<rparr>"

definition scanningWorld :: world where
  "scanningWorld =
     \<lparr>STATE = \<lparr>scanning = True, intervalId = Some 1, faceApiReady = True,
               processing = {[0x61]}\<rparr>,
      faceapi = True, tt_matches = Some [recA], extensionAlive = True,
      timers = [1], nextTimerId = 2, effects = [], pipelines = []\<rparr>"

text \<open>
  A second element showing the same source as \<open>clip\<close>, and one showing another source;
  both pass the filters with another description and URL.
\<close>

definition sahra :: jsstring where
  "sahra = [0x0633, 0x0647, 0x0631, 0x0629]"

definition twinClip :: video where
  "twinClip =
     \<lparr>isHTMLVideoElement = True, currentSrc = [0x61], src = [], scanKey = None,
      randomKey = [0x79], boundingClientRect = onScreen, extractedDescription = sahra,
      foundVideoUrl = [0x75, 0x33], posterAttr = [], videoWidth = 576, videoHeight = 1024,
      canvasContext = True, drawImageThrows = False,
      detectAllFaces = Inr (Some [\<lparr>gender = Female, genderProbability = Some 0.9\<rparr>])\<rparr>"

definition otherClip :: video where
  "otherClip =
     \<lparr>isHTMLVideoElement = True, currentSrc = [0x63], src = [], scanKey = None,
      randomKey = [0x79], boundingClientRect = onScreen, extractedDescription = sahra,
      foundVideoUrl = [0x75, 0x33], posterAttr = [], videoWidth = 576, videoHeight = 1024,
      canvasContext = True, drawImageThrows = False,
      detectAllFaces = Inr (Some [\<lparr>gender = Female, genderProbability = Some 0.9\<rparr>])\<rparr>"

definition recC :: matchRecord where
  "recC = \<lparr>url = [0x75, 0x33], description = sahra, prob = 0.9,
           collectedAt = [0x74], page = [0x70], poster = None\<rparr>"

definition twinFeed :: document where
  "twinFeed = \<lparr>view = wideView, href = [0x70], now = [0x74], videos = [clip, twinClip]\<rparr>"

definition pairFeed :: document where
  "pairFeed = \<lparr>view = wideView, href = [0x70], now = [0x74], videos = [clip, otherClip]\<rparr>"

definition blankFeed :: document where
  "blankFeed = \<lparr>view = wideView, href = [0x70], now = [0x74], videos = [blankClip]\<rparr>"

definition goodLoader :: loader where
  "goodLoader =
     \<lparr>scriptLoads = True, definesFaceapi = True, tinyFaceDetectorLoads = True,
      ageGenderNetLoads = True\<rparr>"

definition offlineLoader :: loader where
  "offlineLoader =
     \<lparr>scriptLoads = True, definesFaceapi = True, tinyFaceDetectorLoads = False,
      ageGenderNetLoads = False\<rparr>"

section \<open>Text filter\<close>

lemma regexTest_ex: "regexTest cls us \<longleftrightarrow> (\<exists>u\<in>set us. cls u)"
  by (induction us) auto

lemma arabicUnit_unat: "arabicUnit u \<longleftrightarrow> arabicCodePoint (unat u)"
  unfolding arabicUnit_def arabicCodePoint_def word_le_nat_alt
  by simp

lemma surrogate_not_arabic: "highSurrogate u \<or> lowSurrogate u \<Longrightarrow> \<not> arabicUnit u"
  unfolding arabicUnit_def highSurrogate_def lowSurrogate_def word_le_nat_alt
  by simp arith

lemma supplementary_not_arabic: "\<not> arabicCodePoint (0x10000 + a)"
  unfolding arabicCodePoint_def by simp

lemma codePoints_pair:
  assumes "highSurrogate u" "lowSurrogate v"
  shows "codePoints (u # v # us) =
    (0x10000 + ((unat u - 0xD800) * 0x400 + (unat v - 0xDC00))) # codePoints us"
  using assms by (simp only: codePoints.simps if_True simp_thms add.assoc)

lemma codePoints_single:
  assumes "\<not> (highSurrogate u \<and> lowSurrogate v)"
  shows "codePoints (u # v # us) = unat u # codePoints (v # us)"
  using assms by (simp only: codePoints.simps if_False)

text \<open>
  A surrogate is outside the three blocks and so is every supplementary code point, so
  reading the string by code units or by code points finds the same matches.
\<close>

lemma codePoints_arabic:
  "(\<exists>c\<in>set (codePoints us). arabicCodePoint c) \<longleftrightarrow> (\<exists>u\<in>set us. arabicUnit u)"
proof (induction us rule: codePoints.induct)
  case 1
  show ?case by simp
next
  case (2 u)
  show ?case by (simp add: arabicUnit_unat)
next
  case (3 u v us)
  show ?case
  proof (cases "highSurrogate u \<and> lowSurrogate v")
    case True
    then have nu: "\<not> arabicUnit u" and nv: "\<not> arabicUnit v"
      using surrogate_not_arabic by blast+
    have eq: "codePoints (u # v # us) =
        (0x10000 + ((unat u - 0xD800) * 0x400 + (unat v - 0xDC00))) # codePoints us"
      using True codePoints_pair by blast
    have "(\<exists>c\<in>set (codePoints (u # v # us)). arabicCodePoint c)
        \<longleftrightarrow> (\<exists>c\<in>set (codePoints us). arabicCodePoint c)"
      unfolding eq using supplementary_not_arabic by (simp del: codePoints.simps)
    also have "\<dots> \<longleftrightarrow> (\<exists>w\<in>set us. arabicUnit w)"
      using 3(1) True by blast
    also have "\<dots> \<longleftrightarrow> (\<exists>w\<in>set (u # v # us). arabicUnit w)"
      using nu nv by simp
    finally show ?thesis .
  next
    case False
    have "(\<exists>c\<in>set (codePoints (u # v # us)). arabicCodePoint c)
        \<longleftrightarrow> arabicCodePoint (unat u) \<or> (\<exists>c\<in>set (codePoints (v # us)). arabicCodePoint c)"
      unfolding codePoints_single [OF False] by (simp del: codePoints.simps)
    also have "\<dots> \<longleftrightarrow> arabicUnit u \<or> (\<exists>w\<in>set (v # us). arabicUnit w)"
      using 3(2) False arabicUnit_unat by blast
    also have "\<dots> \<longleftrightarrow> (\<exists>w\<in>set (u # v # us). arabicUnit w)"
      by simp
    finally show ?thesis .
  qed
qed

lemma isArabic_units: "isArabic (Some s) \<longleftrightarrow> (\<exists>u\<in>set s. arabicUnit u)"
  by (simp add: isArabic_def orEmpty_def regexTest_ex)

lemma isArabic_nonempty: "isArabic (Some s) \<Longrightarrow> s \<noteq> []"
  by (auto simp: isArabic_units)

lemma isArabic_points:
  "isArabic (Some s) = (\<exists>c\<in>set (codePoints s). arabicCodePoint c)"
  by (simp add: isArabic_units codePoints_arabic)

text \<open>
  Claim C9. For every string, \<open>isArabic\<close> is true exactly when the string has a code
  point in one of the blocks U+0600-U+06FF, U+0750-U+077F, U+08A0-U+08FF; it is false
  on the empty string and on an absent value, true on the Arabic word of the
  specification's example and false on "hello".
\<close>

theorem isArabic_code_points:
  "isArabic (Some s) = (\<exists>c\<in>set (codePoints s). arabicCodePoint c)
   \<and> \<not> isArabic (Some []) \<and> \<not> isArabic None
   \<and> isArabic (Some marhaba) \<and> \<not> isArabic (Some hello)"
proof -
  have "isArabic (Some s) = (\<exists>c\<in>set (codePoints s). arabicCodePoint c)"
    by (rule isArabic_points)
  moreover have "\<not> isArabic (Some [])" "\<not> isArabic None"
    by (simp_all add: isArabic_def orEmpty_def)
  moreover have "isArabic (Some marhaba)"
    by (simp add: isArabic_def orEmpty_def arabicUnit_def marhaba_def)
  moreover have "\<not> isArabic (Some hello)"
    by (simp add: isArabic_def orEmpty_def arabicUnit_def hello_def)
  ultimately show ?thesis by blast
qed

theorem isArabic_code_points_witness:
  "isArabic (Some [0x61, 0xD83D, 0xDE00, 0x0628])
   \<and> codePoints [0x61, 0xD83D, 0xDE00, 0x0628] = [0x61, 0x1F600, 0x0628]
   \<and> (\<exists>c\<in>set (codePoints [0x61, 0xD83D, 0xDE00, 0x0628]). arabicCodePoint c)"
proof -
  have a: "isArabic (Some [0x61, 0xD83D, 0xDE00, 0x0628])"
    by (simp add: isArabic_def orEmpty_def arabicUnit_def)
  have b: "codePoints [0x61, 0xD83D, 0xDE00, 0x0628] = [0x61, 0x1F600, 0x0628]"
    by (simp add: highSurrogate_def lowSurrogate_def)
  from a b show ?thesis
    using isArabic_code_points [of "[0x61, 0xD83D, 0xDE00, 0x0628]"] by blast
qed

section \<open>Visibility filter\<close>

text \<open>
  Claim C8. \<open>isElementInViewport\<close> is true exactly when the box has positive width and
  height and overlaps the viewport on both axes (top above the viewport's bottom,
  bottom below its top, left before its right edge, right after its left edge); a box
  of width 0 or height 0 is never visible, wherever it is.
\<close>

theorem isElementInViewport_iff:
  "(isElementInViewport vp r \<longleftrightarrow>
      0 < width r \<and> 0 < height r \<and> rectTop r < viewportHeight vp \<and> 0 < bottom r \<and>
      left r < viewportWidth vp \<and> 0 < right r)
   \<and> (width r = 0 \<or> height r = 0 \<longrightarrow> \<not> isElementInViewport vp r)"
  by (auto simp: isElementInViewport_def Let_def)

theorem isElementInViewport_iff_witness:
  "isElementInViewport wideView onScreen
   \<and> height flatBox = 0 \<and> \<not> isElementInViewport wideView flatBox"
proof -
  have "isElementInViewport wideView onScreen"
    using isElementInViewport_iff [of wideView onScreen]
    by (simp add: wideView_def onScreen_def viewportHeight_def viewportWidth_def orNum_def)
  moreover have "height flatBox = 0" by (simp add: flatBox_def)
  ultimately show ?thesis
    using isElementInViewport_iff [of wideView flatBox] by blast
qed

section \<open>Dedup store\<close>

lemma list_ex_duplicateOf:
  "list_ex (duplicateOf r) l \<longleftrightarrow>
     (\<exists>x\<in>set l. url x = url r) \<or>
     (description r \<noteq> [] \<and> (\<exists>x\<in>set l. description x = description r))"
  by (auto simp: list_ex_iff duplicateOf_def)

lemma storedList_update: "storedList (w\<lparr>tt_matches := Some l\<rparr>) = l"
  by (simp add: storedList_def)

lemma saveMatch_fresh:
  assumes "extensionAlive w" "\<not> list_ex (duplicateOf r) (storedList w)"
  shows "saveMatch r w = (Inr True, w\<lparr>tt_matches := Some (storedList w @ [r])\<rparr>)"
  using assms by (simp add: saveMatch_def Let_def)

lemma saveMatch_dup:
  assumes "extensionAlive w" "list_ex (duplicateOf r) (storedList w)"
  shows "saveMatch r w = (Inr False, w)"
  using assms by (simp add: saveMatch_def Let_def)

text \<open>
  Claim C2. With the storage reachable, \<open>saveMatch\<close> puts the record at the end of the
  stored list and answers true exactly when no stored record has the record's URL and
  none has its non-empty description; otherwise it answers false and the store is
  as before.
\<close>

theorem saveMatch_contract:
  assumes "extensionAlive w"
  shows "saveMatch r w =
     (if (\<forall>x\<in>set (storedList w). url x \<noteq> url r) \<and>
         \<not> (description r \<noteq> [] \<and> (\<exists>x\<in>set (storedList w). description x = description r))
      then (Inr True, w\<lparr>tt_matches := Some (storedList w @ [r])\<rparr>)
      else (Inr False, w))"
  using assms by (auto simp: saveMatch_def Let_def list_ex_duplicateOf)

theorem saveMatch_contract_witness:
  "extensionAlive initialWorld
   \<and> saveMatch recA initialWorld = (Inr True, initialWorld\<lparr>tt_matches := Some [recA]\<rparr>)
   \<and> saveMatch recB (initialWorld\<lparr>tt_matches := Some [recA]\<rparr>)
       = (Inr False, initialWorld\<lparr>tt_matches := Some [recA]\<rparr>)"
proof -
  have a: "extensionAlive initialWorld"
    by (simp add: initialWorld_def)
  have b: "saveMatch recA initialWorld = (Inr True, initialWorld\<lparr>tt_matches := Some [recA]\<rparr>)"
    using saveMatch_contract [OF a, of recA]
    by (simp add: initialWorld_def storedList_def)
  have c: "extensionAlive (initialWorld\<lparr>tt_matches := Some [recA]\<rparr>)"
    using a by simp
  have d: "saveMatch recB (initialWorld\<lparr>tt_matches := Some [recA]\<rparr>)
       = (Inr False, initialWorld\<lparr>tt_matches := Some [recA]\<rparr>)"
    using saveMatch_contract [OF c, of recB]
    by (simp add: storedList_def recA_def recB_def marhaba_def)
  from a b d show ?thesis by simp
qed

text \<open>
  Claim C6, as stated, fails: when the store already holds a duplicate of the record,
  appending it twice adds nothing.
\<close>

theorem saveMatch_twice_counterexample:
  "\<not> (length (storedList (snd (saveMatch recA
          (snd (saveMatch recA (initialWorld\<lparr>tt_matches := Some [recA]\<rparr>))))))
       = length (storedList (initialWorld\<lparr>tt_matches := Some [recA]\<rparr>)) + 1)"
  by (simp add: saveMatch_def Let_def initialWorld_def duplicateOf_def storedList_def)

text \<open>
  Claim C6, amended. With the storage reachable and a store that holds no duplicate of
  the record \<open>r\<close>: appending \<open>r\<close> twice makes the list longer by exactly 1; and appending
  after \<open>r\<close> a record with another URL and the same non-empty description answers false,
  leaves the store unchanged, and the list is longer by exactly 1.
\<close>

theorem saveMatch_twice:
  assumes alive: "extensionAlive w"
    and fresh: "\<not> list_ex (duplicateOf r) (storedList w)"
  shows "length (storedList (snd (saveMatch r (snd (saveMatch r w))))) = length (storedList w) + 1
    \<and> (url r2 \<noteq> url r \<and> description r2 = description r \<and> description r \<noteq> [] \<longrightarrow>
         saveMatch r2 (snd (saveMatch r w)) = (Inr False, snd (saveMatch r w)) \<and>
         length (storedList (snd (saveMatch r2 (snd (saveMatch r w))))) = length (storedList w) + 1)"
proof -
  let ?w1 = "w\<lparr>tt_matches := Some (storedList w @ [r])\<rparr>"
  have first: "saveMatch r w = (Inr True, ?w1)"
    using saveMatch_fresh [OF alive fresh] .
  have alive1: "extensionAlive ?w1" using alive by simp
  have "list_ex (duplicateOf r) (storedList ?w1)"
    by (simp add: duplicateOf_def storedList_update)
  then have second: "saveMatch r ?w1 = (Inr False, ?w1)"
    using saveMatch_dup [OF alive1] by blast
  have third: "saveMatch r2 ?w1 = (Inr False, ?w1)"
    if "description r2 = description r" "description r \<noteq> []"
  proof -
    have "list_ex (duplicateOf r2) (storedList ?w1)"
      using that by (simp add: duplicateOf_def storedList_update)
    then show ?thesis using saveMatch_dup [OF alive1] by blast
  qed
  show ?thesis
    using first second third by (simp add: storedList_update)
qed

theorem saveMatch_twice_witness:
  "extensionAlive initialWorld \<and> \<not> list_ex (duplicateOf recA) (storedList initialWorld)
   \<and> url recB \<noteq> url recA \<and> description recB = description recA \<and> description recA \<noteq> []
   \<and> length (storedList (snd (saveMatch recA (snd (saveMatch recA initialWorld))))) = 1
   \<and> length (storedList (snd (saveMatch recB (snd (saveMatch recA initialWorld))))) = 1"
proof -
  have a: "extensionAlive initialWorld"
    by (simp add: initialWorld_def)
  have b: "\<not> list_ex (duplicateOf recA) (storedList initialWorld)"
    by (simp add: initialWorld_def storedList_def)
  have c: "url recB \<noteq> url recA \<and> description recB = description recA \<and> description recA \<noteq> []"
    by (simp add: recA_def recB_def marhaba_def)
  have d: "length (storedList initialWorld) = 0"
    by (simp add: initialWorld_def storedList_def)
  have e: "length (storedList (snd (saveMatch recA (snd (saveMatch recA initialWorld))))) = 1"
    using saveMatch_twice [OF a b, of recB] d by simp
  have "length (storedList (snd (saveMatch recB (snd (saveMatch recA initialWorld)))))
      = length (storedList initialWorld) + 1"
    using saveMatch_twice [OF a b, of recB] c by blast
  then have f: "length (storedList (snd (saveMatch recB (snd (saveMatch recA initialWorld))))) = 1"
    using d by simp
  from a b c e f show ?thesis by blast
qed

section \<open>Frame classifier adapter\<close>

lemma maxFemaleProb_Max:
  "maxFemaleProb ds m = Max (insert m (set (femaleScores ds)))"
proof (induction ds arbitrary: m)
  case Nil
  show ?case by (simp add: femaleScores_def)
next
  case (Cons d ds)
  show ?case
  proof (cases "gender d = Female")
    case True
    have "maxFemaleProb (d # ds) m = Max (insert (max m (orZero (genderProbability d))) (set (femaleScores ds)))"
      using True Cons.IH by simp
    also have "\<dots> = Max (insert m (insert (orZero (genderProbability d)) (set (femaleScores ds))))"
      by (cases "set (femaleScores ds) = {}") (simp_all add: max.assoc max.commute max.left_commute)
    finally show ?thesis using True by (simp add: femaleScores_def)
  next
    case False
    then show ?thesis using Cons.IH by (simp add: femaleScores_def)
  qed
qed

lemma maxFemaleProb_threshold:
  "femaleProbThreshold \<le> maxFemaleProb ds 0 \<longleftrightarrow>
     (\<exists>d\<in>set ds. gender d = Female \<and> femaleProbThreshold \<le> orZero (genderProbability d))"
proof -
  have "femaleProbThreshold \<le> Max (insert 0 (set (femaleScores ds)))
      \<longleftrightarrow> (\<exists>x\<in>insert 0 (set (femaleScores ds)). femaleProbThreshold \<le> x)"
    by (rule Max_ge_iff) simp_all
  also have "\<dots> \<longleftrightarrow> (\<exists>x\<in>set (femaleScores ds). femaleProbThreshold \<le> x)"
    by (simp add: femaleProbThreshold_def)
  also have "\<dots> \<longleftrightarrow> (\<exists>d\<in>set ds. gender d = Female \<and> femaleProbThreshold \<le> orZero (genderProbability d))"
    by (auto simp: femaleScores_def)
  finally show ?thesis by (simp add: maxFemaleProb_Max)
qed

lemma maxFemaleProb_nonneg:
  assumes "\<forall>x\<in>set (femaleScores ds). 0 \<le> x"
  shows "maxFemaleProb ds 0 = (if femaleScores ds = [] then 0 else Max (set (femaleScores ds)))"
proof (cases "femaleScores ds = []")
  case True
  then show ?thesis by (simp add: maxFemaleProb_Max)
next
  case False
  then have ne: "set (femaleScores ds) \<noteq> {}" by simp
  have "Max (insert 0 (set (femaleScores ds))) = max 0 (Max (set (femaleScores ds)))"
    using ne by simp
  moreover have "0 \<le> Max (set (femaleScores ds))"
  proof -
    obtain x where x: "x \<in> set (femaleScores ds)"
      using False by (cases "femaleScores ds") auto
    have "0 \<le> x" using x assms by blast
    also have "x \<le> Max (set (femaleScores ds))" using x by simp
    finally show ?thesis .
  qed
  ultimately show ?thesis using False by (simp add: maxFemaleProb_Max)
qed

lemma detect_runs:
  assumes "classifierRuns v w"
  shows "detectFemaleOnFrame v w =
     (case detectAllFaces v of
        Inr (Some ds) \<Rightarrow>
          (if ds = [] then negative
           else \<lparr>isFemale = (maxFemaleProb ds 0 \<ge> femaleProbThreshold), maxProb = maxFemaleProb ds 0\<rparr>,
           emit DetectFaces w)
      | _ \<Rightarrow> (negative, emit DetectFaces w))"
  using assms
  by (auto simp: classifierRuns_def detectFemaleOnFrame_def Let_def split: sum.splits option.splits)

lemma detect_not_runs:
  assumes "\<not> classifierRuns v w"
  shows "detectFemaleOnFrame v w = (negative, w)"
  using assms
  by (auto simp: classifierRuns_def detectFemaleOnFrame_def Let_def)

text \<open>
  Claim C4. When the classifier is reached and returns detections, the result is
  positive exactly when some detection has the target category with a score of at
  least 0.7; the reported confidence is the greatest of 0 and the scores of the target
  category, which for scores that are not negative (the classifier's are in [0,1]) is
  the greatest such score, and 0 when there is none; the classifier was called once.
  A frame of width or height below 2 gives the negative result with confidence 0 and
  the classifier is not called. In every other case the result is negative with
  confidence 0.
\<close>

theorem detectFemaleOnFrame_decision:
  "(classifierRuns v w \<and> detectAllFaces v = Inr (Some ds) \<longrightarrow>
      isFemale (fst (detectFemaleOnFrame v w)) =
        (\<exists>d\<in>set ds. gender d = Female \<and> 0.7 \<le> orZero (genderProbability d)) \<and>
      maxProb (fst (detectFemaleOnFrame v w)) = Max (insert 0 (set (femaleScores ds))) \<and>
      snd (detectFemaleOnFrame v w) = emit DetectFaces w \<and>
      ((\<forall>x\<in>set (femaleScores ds). 0 \<le> x) \<longrightarrow>
        maxProb (fst (detectFemaleOnFrame v w)) =
          (if femaleScores ds = [] then 0 else Max (set (femaleScores ds)))))
   \<and> (videoWidth v < 2 \<or> videoHeight v < 2 \<longrightarrow>
        detectFemaleOnFrame v w = (negative, w))
   \<and> (\<not> classifierRuns v w \<or> (\<forall>ds. detectAllFaces v \<noteq> Inr (Some ds)) \<longrightarrow>
        fst (detectFemaleOnFrame v w) = negative)"
proof (intro conjI impI)
  assume a: "classifierRuns v w \<and> detectAllFaces v = Inr (Some ds)"
  have r: "fst (detectFemaleOnFrame v w) =
      (if ds = [] then negative
       else \<lparr>isFemale = (maxFemaleProb ds 0 \<ge> femaleProbThreshold), maxProb = maxFemaleProb ds 0\<rparr>)"
    using a detect_runs [of v w] by simp
  show "isFemale (fst (detectFemaleOnFrame v w)) =
        (\<exists>d\<in>set ds. gender d = Female \<and> 0.7 \<le> orZero (genderProbability d))"
  proof (cases "ds = []")
    case True
    then show ?thesis using r by (simp add: negative_def)
  next
    case False
    then show ?thesis using r maxFemaleProb_threshold [of ds]
      by (simp add: femaleProbThreshold_def)
  qed
  show "maxProb (fst (detectFemaleOnFrame v w)) = Max (insert 0 (set (femaleScores ds)))"
  proof (cases "ds = []")
    case True
    then show ?thesis using r by (simp add: negative_def femaleScores_def)
  next
    case False
    then show ?thesis using r by (simp add: maxFemaleProb_Max)
  qed
  show "snd (detectFemaleOnFrame v w) = emit DetectFaces w"
    using a detect_runs [of v w] by simp
  assume nn: "\<forall>x\<in>set (femaleScores ds). 0 \<le> x"
  show "maxProb (fst (detectFemaleOnFrame v w)) =
          (if femaleScores ds = [] then 0 else Max (set (femaleScores ds)))"
  proof (cases "ds = []")
    case True
    then show ?thesis using r by (simp add: negative_def femaleScores_def)
  next
    case False
    then show ?thesis using r maxFemaleProb_nonneg [OF nn] by simp
  qed
next
  assume "videoWidth v < 2 \<or> videoHeight v < 2"
  then have "\<not> classifierRuns v w" by (auto simp: classifierRuns_def)
  then show "detectFemaleOnFrame v w = (negative, w)" by (rule detect_not_runs)
next
  assume a: "\<not> classifierRuns v w \<or> (\<forall>ds. detectAllFaces v \<noteq> Inr (Some ds))"
  show "fst (detectFemaleOnFrame v w) = negative"
  proof (cases "classifierRuns v w")
    case False
    then show ?thesis by (simp add: detect_not_runs)
  next
    case True
    then show ?thesis using a detect_runs [OF True]
      by (auto split: sum.splits option.splits)
  qed
qed

theorem detectFemaleOnFrame_decision_witness:
  "classifierRuns clip readyWorld
   \<and> detectAllFaces clip = Inr (Some [\<lparr>gender = Female, genderProbability = Some 0.82\<rparr>])
   \<and> isFemale (fst (detectFemaleOnFrame clip readyWorld))
   \<and> maxProb (fst (detectFemaleOnFrame clip readyWorld)) = 0.82
   \<and> videoWidth blankClip < 2
   \<and> detectFemaleOnFrame blankClip readyWorld = (negative, readyWorld)
   \<and> effects (snd (detectFemaleOnFrame blankClip readyWorld)) = []
   \<and> femaleScores [\<lparr>gender = Female, genderProbability = Some 0.82\<rparr>] = [0.82]
   \<and> \<not> classifierRuns clip initialWorld
   \<and> fst (detectFemaleOnFrame clip initialWorld) = negative"
proof -
  let ?ds = "[\<lparr>gender = Female, genderProbability = Some 0.82\<rparr>]"
  have a: "classifierRuns clip readyWorld"
    by (simp add: classifierRuns_def clip_def readyWorld_def)
  have b: "detectAllFaces clip = Inr (Some ?ds)"
    by (simp add: clip_def)
  have s: "femaleScores ?ds = [0.82]"
    by (simp add: femaleScores_def orZero_def)
  have c: "isFemale (fst (detectFemaleOnFrame clip readyWorld))"
    using detectFemaleOnFrame_decision [of clip readyWorld ?ds] a b
    by (simp add: orZero_def)
  have d: "maxProb (fst (detectFemaleOnFrame clip readyWorld)) = 0.82"
    using detectFemaleOnFrame_decision [of clip readyWorld ?ds] a b s
    by simp
  have e: "videoWidth blankClip < 2"
    by (simp add: blankClip_def)
  have f: "detectFemaleOnFrame blankClip readyWorld = (negative, readyWorld)"
    using detectFemaleOnFrame_decision [of blankClip readyWorld ?ds] e by blast
  have g: "effects (snd (detectFemaleOnFrame blankClip readyWorld)) = []"
    unfolding f by (simp add: readyWorld_def)
  have h: "\<not> classifierRuns clip initialWorld"
    by (simp add: classifierRuns_def initialWorld_def)
  have i: "fst (detectFemaleOnFrame clip initialWorld) = negative"
    using detectFemaleOnFrame_decision [of clip initialWorld ?ds] h by blast
  from a b c d e f g s h i show ?thesis by blast
qed

section \<open>Per-candidate pipeline\<close>

lemmas example_defs = feed_def clip_def readyWorld_def wideView_def onScreen_def marhaba_def recA_def
lemmas pipeline_defs = processVideo_def identityKey_def addProcessing_def
      deleteProcessing_def isElementInViewport_def viewportHeight_def
      viewportWidth_def orNum_def isArabic_def orEmpty_def arabicUnit_def
      detectFemaleOnFrame_def emit_def orZero_def femaleProbThreshold_def saveMatch_def
      storedList_def buildRecord_def Let_def

lemma detect_STATE: "STATE (snd (detectFemaleOnFrame v w)) = STATE w"
  by (simp add: detectFemaleOnFrame_def Let_def emit_def split: sum.splits option.splits)

lemma detect_tt_matches: "tt_matches (snd (detectFemaleOnFrame v w)) = tt_matches w"
  by (simp add: detectFemaleOnFrame_def Let_def emit_def split: sum.splits option.splits)

lemma detect_alive: "extensionAlive (snd (detectFemaleOnFrame v w)) = extensionAlive w"
  by (simp add: detectFemaleOnFrame_def Let_def emit_def split: sum.splits option.splits)

lemma detect_positive:
  "isFemale (fst (detectFemaleOnFrame v w)) \<Longrightarrow>
     femaleProbThreshold \<le> maxProb (fst (detectFemaleOnFrame v w))"
  by (auto simp: detectFemaleOnFrame_def Let_def negative_def split: sum.splits option.splits if_splits)

lemma saveMatch_STATE: "STATE (snd (saveMatch r w)) = STATE w"
  by (simp add: saveMatch_def Let_def)

lemma saveMatch_ok_iff: "(\<exists>b. fst (saveMatch r w) = Inr b) \<longleftrightarrow> extensionAlive w"
  by (auto simp: saveMatch_def Let_def)

lemma saveMatch_stored:
  "storedList (snd (saveMatch r w)) = storedList w \<or>
   storedList (snd (saveMatch r w)) = storedList w @ [r]"
  by (simp add: saveMatch_def Let_def storedList_def)

lemma storedList_STATE_update: "storedList (w\<lparr>STATE := s\<rparr>) = storedList w"
  by (simp add: storedList_def)

lemma storedList_cong: "tt_matches w = tt_matches w' \<Longrightarrow> storedList w = storedList w'"
  by (simp add: storedList_def)

lemma processing_add_delete:
  "key \<notin> processing (STATE w) \<Longrightarrow> STATE w' = STATE (addProcessing key w) \<Longrightarrow>
     processing (STATE (deleteProcessing key w')) = processing (STATE w)"
  by (simp add: addProcessing_def deleteProcessing_def)

lemma processVideo_not_reaching:
  assumes "\<not> reachesStore doc v w"
  shows "processing (STATE (processVideo doc v w)) = processing (STATE w)"
    and "storedList (processVideo doc v w) = storedList w"
proof -
  let ?k = "identityKey v"
  let ?w1 = "addProcessing ?k w"
  let ?d = "detectFemaleOnFrame v ?w1"
  have s: "STATE (snd ?d) = STATE ?w1" by (rule detect_STATE)
  have p1: "?k \<notin> processing (STATE w) \<Longrightarrow> processing (STATE (deleteProcessing ?k ?w1)) = processing (STATE w)"
    by (rule processing_add_delete) simp_all
  have p2: "?k \<notin> processing (STATE w) \<Longrightarrow> processing (STATE (deleteProcessing ?k (snd ?d))) = processing (STATE w)"
    using s by (rule processing_add_delete [rotated])
  have t1: "storedList (deleteProcessing ?k ?w1) = storedList w"
    by (simp add: storedList_def deleteProcessing_def addProcessing_def)
  have t2: "storedList (deleteProcessing ?k (snd ?d)) = storedList w"
    using detect_tt_matches [of v ?w1]
    by (simp add: storedList_def deleteProcessing_def addProcessing_def)
  show "processing (STATE (processVideo doc v w)) = processing (STATE w)"
    using assms p1 p2
    by (auto simp: processVideo_def reachesStore_def Let_def split_beta)
  show "storedList (processVideo doc v w) = storedList w"
    using assms t1 t2
    by (auto simp: processVideo_def reachesStore_def Let_def split_beta)
qed

lemma processVideo_reaching:
  assumes "reachesStore doc v w"
  shows "processVideo doc v w =
     (let w2 = snd (detectFemaleOnFrame v (addProcessing (identityKey v) w));
          r = buildRecord doc v (extractedDescription v)
                (maxProb (fst (detectFemaleOnFrame v (addProcessing (identityKey v) w))))
      in case saveMatch r w2 of
           (Inr saved, w3) \<Rightarrow> deleteProcessing (identityKey v) w3
         | (Inl e, w3) \<Rightarrow> w3)"
  using assms
  by (simp add: processVideo_def reachesStore_def Let_def split_beta)

lemma storedList_deleteProcessing: "storedList (deleteProcessing k w) = storedList w"
  by (simp add: storedList_def deleteProcessing_def)

lemma storedList_addProcessing: "storedList (addProcessing k w) = storedList w"
  by (simp add: storedList_def addProcessing_def)

lemma processVideo_reaching_stored:
  assumes "reachesStore doc v w"
  shows "storedList (processVideo doc v w) = storedList w \<or>
         storedList (processVideo doc v w) = storedList w @
           [buildRecord doc v (extractedDescription v)
              (maxProb (fst (detectFemaleOnFrame v (addProcessing (identityKey v) w))))]"
proof -
  let ?w1 = "addProcessing (identityKey v) w"
  let ?w2 = "snd (detectFemaleOnFrame v ?w1)"
  let ?r = "buildRecord doc v (extractedDescription v) (maxProb (fst (detectFemaleOnFrame v ?w1)))"
  have base: "storedList ?w2 = storedList w"
    using detect_tt_matches [of v ?w1] by (simp add: storedList_def addProcessing_def)
  have pv: "storedList (processVideo doc v w) = storedList (snd (saveMatch ?r ?w2))"
    unfolding processVideo_reaching [OF assms]
    by (cases "saveMatch ?r ?w2"; cases "fst (saveMatch ?r ?w2)")
       (simp_all add: Let_def storedList_deleteProcessing)
  show ?thesis
    using saveMatch_stored [of ?r ?w2] unfolding pv base .
qed

text \<open>
  Claim C10. A run of the pipeline leaves the stored list as it was or adds one record
  at its end, and a record it adds has a confidence of at least 0.7 and a non-empty
  description with at least one code point of the Arabic blocks.
\<close>

theorem processVideo_records:
  "storedList (processVideo doc v w) = storedList w \<or>
   (\<exists>r. storedList (processVideo doc v w) = storedList w @ [r] \<and>
        0.7 \<le> prob r \<and> description r \<noteq> [] \<and>
        (\<exists>c\<in>set (codePoints (description r)). arabicCodePoint c))"
proof (cases "reachesStore doc v w")
  case False
  then show ?thesis using processVideo_not_reaching(2) by blast
next
  case True
  let ?w1 = "addProcessing (identityKey v) w"
  let ?p = "maxProb (fst (detectFemaleOnFrame v ?w1))"
  let ?r = "buildRecord doc v (extractedDescription v) ?p"
  have ar: "isArabic (Some (extractedDescription v))"
    and fe: "isFemale (fst (detectFemaleOnFrame v ?w1))"
    using True by (simp_all add: reachesStore_def)
  have p: "0.7 \<le> prob ?r"
    using detect_positive [OF fe] by (simp add: buildRecord_def femaleProbThreshold_def)
  have d: "description ?r = extractedDescription v"
    by (simp add: buildRecord_def)
  have ne: "description ?r \<noteq> []"
    using ar d isArabic_nonempty by simp
  have cp: "\<exists>c\<in>set (codePoints (description ?r)). arabicCodePoint c"
    using ar d isArabic_points by simp
  show ?thesis
    using processVideo_reaching_stored [OF True] p ne cp by blast
qed

lemma processVideo_releases:
  assumes "isHTMLVideoElement v" "identityKey v \<notin> processing (STATE w)" "extensionAlive w"
  shows "identityKey v \<notin> processing (STATE (processVideo doc v w))"
proof (cases "reachesStore doc v w")
  case False
  then show ?thesis using processVideo_not_reaching(1) assms(2) by blast
next
  case True
  let ?w1 = "addProcessing (identityKey v) w"
  let ?w2 = "snd (detectFemaleOnFrame v ?w1)"
  let ?r = "buildRecord doc v (extractedDescription v) (maxProb (fst (detectFemaleOnFrame v ?w1)))"
  have "extensionAlive ?w2"
    using assms(3) detect_alive [of v ?w1] by (simp add: addProcessing_def)
  then obtain b where b: "fst (saveMatch ?r ?w2) = Inr b"
    using saveMatch_ok_iff by blast
  have "processVideo doc v w = deleteProcessing (identityKey v) (snd (saveMatch ?r ?w2))"
    unfolding processVideo_reaching [OF True] using b
    by (cases "saveMatch ?r ?w2") (simp add: Let_def)
  then show ?thesis by (simp add: deleteProcessing_def)
qed

lemma processVideo_storage_error:
  assumes "reachesStore doc v w" "\<not> extensionAlive w"
  shows "identityKey v \<in> processing (STATE (processVideo doc v w))"
proof -
  let ?w1 = "addProcessing (identityKey v) w"
  let ?w2 = "snd (detectFemaleOnFrame v ?w1)"
  let ?r = "buildRecord doc v (extractedDescription v) (maxProb (fst (detectFemaleOnFrame v ?w1)))"
  have na: "\<not> extensionAlive ?w2"
    using assms(2) detect_alive [of v ?w1] by (simp add: addProcessing_def)
  then have sm: "saveMatch ?r ?w2 = (Inl Thrown, ?w2)"
    by (simp add: saveMatch_def)
  have "processVideo doc v w = ?w2"
    unfolding processVideo_reaching [OF assms(1)] using sm by (simp add: Let_def)
  moreover have "STATE ?w2 = STATE ?w1" by (rule detect_STATE)
  ultimately show ?thesis by (simp add: addProcessing_def)
qed

theorem processVideo_records_witness:
  "storedList (processVideo feed clip readyWorld) = storedList readyWorld @ [recA]
   \<and> 0.7 \<le> prob recA \<and> description recA \<noteq> []
   \<and> (\<exists>c\<in>set (codePoints (description recA)). arabicCodePoint c)"
proof -
  have run: "processVideo feed clip readyWorld
      = readyWorld\<lparr>tt_matches := Some [recA], effects := [DetectFaces]\<rparr>"
    by (simp add: pipeline_defs example_defs)
  have before: "storedList readyWorld = []"
    by (simp add: storedList_def readyWorld_def)
  have after: "storedList (processVideo feed clip readyWorld) = [recA]"
    unfolding run by (simp add: storedList_def)
  show ?thesis
    using processVideo_records [of feed clip readyWorld] before after by auto
qed

text \<open>
  Claim C1. The pipeline should take the key out of the processing set on every way
  out. It does so on success and on each of the three rejections
  (\<open>processVideo_releases\<close>), but the \<open>catch\<close> block only logs: when \<open>saveMatch\<close>
  throws, the key stays in the set (\<open>processVideo_storage_error\<close>). Here the pipeline
  runs on a visible video with an Arabic description and a positive frame, in a tab
  whose extension context is gone: the key was not in the set before and is in it
  after.
\<close>

theorem processVideo_error_keeps_key:
  "identityKey clip \<notin> processing (STATE orphanWorld)
   \<and> identityKey clip \<in> processing (STATE (processVideo feed clip orphanWorld))"
  by (simp add: pipeline_defs example_defs orphanWorld_def)

section \<open>Pipelines started by a scan pass\<close>

text \<open>
  The pipeline taken alone is its parts run one after the other.
\<close>

lemma detectFemaleOnFrame_parts:
  "detectFemaleOnFrame v w =
     (case detectFemaleOnFrame_begin v w of
        (Some r, w1) \<Rightarrow> (r, w1)
      | (None, w1) \<Rightarrow> (detectFemaleOnFrame_end v, w1))"
  by (simp add: detectFemaleOnFrame_def detectFemaleOnFrame_begin_def detectFemaleOnFrame_end_def
      Let_def split: sum.splits option.splits)

lemma begin_STATE: "STATE (snd (detectFemaleOnFrame_begin v w)) = STATE w"
  by (simp add: detectFemaleOnFrame_begin_def Let_def emit_def)

lemma begin_alive: "extensionAlive (snd (detectFemaleOnFrame_begin v w)) = extensionAlive w"
  by (simp add: detectFemaleOnFrame_begin_def Let_def emit_def)

lemma begin_stored: "storedList (snd (detectFemaleOnFrame_begin v w)) = storedList w"
  by (simp add: detectFemaleOnFrame_begin_def Let_def emit_def storedList_def)

lemma runAlone_AwaitDetect:
  "runAlone 3 doc (Some (AwaitDetect v key desc early), w) =
     (let res = (case early of Some r \<Rightarrow> r | None \<Rightarrow> detectFemaleOnFrame_end v) in
      if \<not> isFemale res then deleteProcessing key w
      else
        case saveMatch (buildRecord doc v desc (maxProb res)) w of
          (Inr saved, w3) \<Rightarrow> deleteProcessing key w3
        | (Inl e, w3) \<Rightarrow> w3)"
proof -
  have three: "(3::nat) = Suc (Suc (Suc 0))" by simp
  have alive: "extensionAlive (w\<lparr>tt_matches := x\<rparr>) = extensionAlive w" for x by simp
  show ?thesis
    unfolding three
    by (simp add: Let_def saveMatch_def deleteProcessing_def split: option.splits)
qed

lemma processVideo_alone:
  "processVideo doc v w = runAlone 3 doc (processVideo_begin doc v w)"
proof -
  obtain early w2 where b: "detectFemaleOnFrame_begin v (addProcessing (identityKey v) w) = (early, w2)"
    by (cases "detectFemaleOnFrame_begin v (addProcessing (identityKey v) w)")
  have d: "detectFemaleOnFrame v (addProcessing (identityKey v) w) =
      ((case early of Some r \<Rightarrow> r | None \<Rightarrow> detectFemaleOnFrame_end v), w2)"
    unfolding detectFemaleOnFrame_parts b by (cases early) simp_all
  have none: "runAlone 3 doc (None, x) = x" for x by simp
  show ?thesis
    unfolding processVideo_def processVideo_begin_def
    by (simp add: Let_def b d runAlone_AwaitDetect none del: runAlone.simps)
qed

text \<open>
  A pass over two elements that show the same source: the first pipeline waits for the
  classifier with its key in the processing set, the second finds the key there and
  stops at once.
\<close>

lemmas example_defs2 = twinFeed_def pairFeed_def twinClip_def otherClip_def sahra_def recC_def
lemmas begin_defs = scanOnce_def startPipeline_def processVideo_begin_def identityKey_def
  addProcessing_def deleteProcessing_def isElementInViewport_def viewportHeight_def
  viewportWidth_def orNum_def isArabic_def orEmpty_def arabicUnit_def
  detectFemaleOnFrame_begin_def emit_def Let_def

lemma scanOnce_twins:
  "scanOnce twinFeed readyWorld =
     readyWorld\<lparr>STATE := (STATE readyWorld)\<lparr>processing := {[0x61]}\<rparr>,
                 effects := [ScanPass, DetectFaces],
                 pipelines := [AwaitDetect clip [0x61] marhaba None]\<rparr>"
  by (simp add: begin_defs example_defs example_defs2)

text \<open>
  A pass over two elements with different sources starts both pipelines. When both
  \<open>get\<close> callbacks run before either \<open>set\<close>, both see the empty list, and the second
  \<open>set\<close> overwrites the first: only the last record is stored.
\<close>

lemma scanOnce_pair:
  "scanOnce pairFeed readyWorld =
     readyWorld\<lparr>STATE := (STATE readyWorld)\<lparr>processing := {[0x61], [0x63]}\<rparr>,
                 effects := [ScanPass, DetectFaces, DetectFaces],
                 pipelines := [AwaitDetect clip [0x61] marhaba None,
                               AwaitDetect otherClip [0x63] sahra None]\<rparr>"
  by (simp add: begin_defs example_defs example_defs2 insert_commute)

lemmas resume_defs = resumeAt_def detectFemaleOnFrame_end_def orZero_def femaleProbThreshold_def
  buildRecord_def storedList_def duplicateOf_def deleteProcessing_def Let_def

lemma lost_update:
  "tt_matches (resumeAt pairFeed 0 (resumeAt pairFeed 0 (resumeAt pairFeed 1 (resumeAt pairFeed 0
      (resumeAt pairFeed 1 (resumeAt pairFeed 0 (scanOnce pairFeed readyWorld)))))))
    = Some [recC]
   \<and> pipelines (resumeAt pairFeed 0 (resumeAt pairFeed 0 (resumeAt pairFeed 1 (resumeAt pairFeed 0
      (resumeAt pairFeed 1 (resumeAt pairFeed 0 (scanOnce pairFeed readyWorld))))))) = []"
  unfolding scanOnce_pair
  by (simp add: resume_defs example_defs example_defs2)

text \<open>
  A pipeline whose \<open>detectFemaleOnFrame\<close> returned early still holds its key when the
  pass ends, and releases it in the continuations that run next.
\<close>

lemma scanOnce_early:
  "scanOnce blankFeed readyWorld =
     readyWorld\<lparr>STATE := (STATE readyWorld)\<lparr>processing := {[0x62]}\<rparr>,
                 effects := [ScanPass],
                 pipelines := [AwaitDetect blankClip [0x62] marhaba (Some negative)]\<rparr>"
  by (simp add: begin_defs example_defs blankClip_def blankFeed_def)

lemma microtasks_early:
  "microtasks blankFeed (scanOnce blankFeed readyWorld) = readyWorld\<lparr>effects := [ScanPass]\<rparr>"
  unfolding scanOnce_early
  by (simp add: microtasks_def negative_def deleteProcessing_def readyWorld_def)

section \<open>Scan loop and control interface\<close>

lemma count_list_append: "count_list (xs @ ys) a = count_list xs a + count_list ys a"
  by (induction xs) simp_all

lemma settle_fails:
  assumes "fst (injectFaceApi_settle ld w) = Inl e"
  shows "STATE (snd (injectFaceApi_settle ld w)) = STATE w"
    and "timers (snd (injectFaceApi_settle ld w)) = timers w"
    and "nextTimerId (snd (injectFaceApi_settle ld w)) = nextTimerId w"
    and "tt_matches (snd (injectFaceApi_settle ld w)) = tt_matches w"
    and "scanPasses (snd (injectFaceApi_settle ld w)) = scanPasses w"
  using assms
  by (simp_all add: injectFaceApi_settle_def Let_def emit_def scanPasses_def split: if_splits)

lemma begin_facts:
  shows "STATE (snd (injectFaceApi_begin w)) = STATE w"
    and "timers (snd (injectFaceApi_begin w)) = timers w"
    and "nextTimerId (snd (injectFaceApi_begin w)) = nextTimerId w"
    and "tt_matches (snd (injectFaceApi_begin w)) = tt_matches w"
    and "scanPasses (snd (injectFaceApi_begin w)) = scanPasses w"
  by (simp_all add: injectFaceApi_begin_def emit_def scanPasses_def)

lemma injectFaceApi_fails:
  assumes "fst (injectFaceApi ld w) = Inl e"
  shows "STATE (snd (injectFaceApi ld w)) = STATE w \<and>
      timers (snd (injectFaceApi ld w)) = timers w \<and>
      nextTimerId (snd (injectFaceApi ld w)) = nextTimerId w \<and>
      tt_matches (snd (injectFaceApi ld w)) = tt_matches w \<and>
      scanPasses (snd (injectFaceApi ld w)) = scanPasses w \<and>
      \<not> faceApiReady (STATE w)"
proof -
  obtain r w1 where b: "injectFaceApi_begin w = (r, w1)" by (cases "injectFaceApi_begin w")
  have w1: "STATE w1 = STATE w" "timers w1 = timers w" "nextTimerId w1 = nextTimerId w"
    "tt_matches w1 = tt_matches w" "scanPasses w1 = scanPasses w"
    using begin_facts [of w] b by simp_all
  have nr: "\<not> faceApiReady (STATE w)"
    using assms by (auto simp: injectFaceApi_def injectFaceApi_begin_def split: if_splits)
  show ?thesis
  proof (cases r)
    case None
    then have eq: "injectFaceApi ld w = injectFaceApi_settle ld w1"
      using b by (simp add: injectFaceApi_def)
    then have "fst (injectFaceApi_settle ld w1) = Inl e" using assms by simp
    from settle_fails [OF this] w1 eq nr show ?thesis by simp
  next
    case (Some a)
    then have "injectFaceApi ld w = (a, w1)"
      using b by (simp add: injectFaceApi_def)
    then show ?thesis using w1 nr by simp
  qed
qed

text \<open>
  Claim C5. When the initialisation of the classifier fails during a start request in
  the idle state, \<open>startScanning\<close> returns false, \<open>STATE\<close> is as before (not scanning),
  no timer is armed, no scan pass runs, the store is untouched, and the response to
  \<open>START_SCAN\<close> reports \<open>ok: false, scanning: false\<close>.
\<close>

theorem startScanning_init_failure:
  assumes idle: "\<not> scanning (STATE w)"
    and fails: "fst (injectFaceApi ld w) = Inl e"
  shows "fst (startScanning ld doc w) = False
    \<and> fst (onMessage ld doc START_SCAN w) = Some (StartResponse False False False)
    \<and> STATE (snd (onMessage ld doc START_SCAN w)) = STATE w
    \<and> timers (snd (onMessage ld doc START_SCAN w)) = timers w
    \<and> nextTimerId (snd (onMessage ld doc START_SCAN w)) = nextTimerId w
    \<and> scanPasses (snd (onMessage ld doc START_SCAN w)) = scanPasses w
    \<and> tt_matches (snd (onMessage ld doc START_SCAN w)) = tt_matches w"
proof -
  let ?w1 = "snd (injectFaceApi ld w)"
  have st: "startScanning ld doc w = (False, ?w1)"
    using idle fails by (cases "injectFaceApi ld w") (simp add: startScanning_def)
  note f = injectFaceApi_fails [OF fails]
  have om: "onMessage ld doc START_SCAN w =
      (Some (StartResponse False (scanning (STATE ?w1)) (faceApiReady (STATE ?w1))), ?w1)"
    by (simp add: onMessage_def st)
  show ?thesis
    unfolding om st using f idle by simp
qed

theorem startScanning_init_failure_witness:
  "\<not> scanning (STATE initialWorld) \<and> fst (injectFaceApi offlineLoader initialWorld) = Inl Thrown
   \<and> fst (onMessage offlineLoader feed START_SCAN initialWorld) = Some (StartResponse False False False)
   \<and> timers (snd (onMessage offlineLoader feed START_SCAN initialWorld)) = []"
proof -
  have a: "\<not> scanning (STATE initialWorld)" by (simp add: initialWorld_def)
  have b: "fst (injectFaceApi offlineLoader initialWorld) = Inl Thrown"
    by (simp add: injectFaceApi_def injectFaceApi_begin_def injectFaceApi_settle_def
        initialWorld_def offlineLoader_def emit_def Let_def)
  have c: "timers initialWorld = []" by (simp add: initialWorld_def)
  show ?thesis
    using startScanning_init_failure [OF a b, of feed] a b c by simp
qed

text \<open>
  Claim C7. A start request while scanning changes nothing and reports success with
  \<open>scanning: true\<close>; a stop request while idle changes nothing and reports success
  with \<open>scanning: false\<close>.
\<close>

theorem start_stop_noop:
  "(scanning (STATE w) \<longrightarrow>
      startScanning ld doc w = (True, w) \<and>
      onMessage ld doc START_SCAN w = (Some (StartResponse True True (faceApiReady (STATE w))), w))
   \<and> (\<not> scanning (STATE w) \<longrightarrow>
      stopScanning w = (True, w) \<and>
      onMessage ld doc STOP_SCAN w = (Some (StopResponse True False), w))"
  by (simp add: startScanning_def stopScanning_def onMessage_def)

theorem start_stop_noop_witness:
  "scanning (STATE scanningWorld)
   \<and> onMessage goodLoader feed START_SCAN scanningWorld = (Some (StartResponse True True True), scanningWorld)
   \<and> \<not> scanning (STATE initialWorld)
   \<and> onMessage goodLoader feed STOP_SCAN initialWorld = (Some (StopResponse True False), initialWorld)"
proof -
  have a: "scanning (STATE scanningWorld)" "faceApiReady (STATE scanningWorld)"
    by (simp_all add: scanningWorld_def)
  have b: "\<not> scanning (STATE initialWorld)" by (simp add: initialWorld_def)
  show ?thesis
    using start_stop_noop [of scanningWorld goodLoader feed]
      start_stop_noop [of initialWorld goodLoader feed] a b by simp
qed

lemma step_ready: "faceApiReady (STATE w) \<Longrightarrow> step e (w, 0) = (w, 0)"
  by (cases e) (simp_all add: injectFaceApi_begin_def)

lemma run_ready: "faceApiReady (STATE w) \<Longrightarrow> run evs (w, 0) = (w, 0)"
  unfolding run_def by (induction evs) (simp_all add: step_ready)

text \<open>
  Claim C3. The initialisation should be performed at most once however the callers
  interleave. The flag \<open>faceApiReady\<close> is the only guard and it is set after the models
  have loaded, so it does not hold back a caller that arrives while another is still
  loading. Here two callers (the auto-start timer and a \<open>START_SCAN\<close> message, or two
  \<open>START_SCAN\<close> messages) call before the first script has loaded: two scripts are
  injected, and each of them loads the models when it arrives. Once the flag is set
  nothing more is injected or loaded (\<open>run_ready\<close>).
\<close>

theorem injectFaceApi_overlap_twice:
  "injections (fst (run [CallInject, CallInject] (initialWorld, 0))) = 2
   \<and> modelLoads (fst (run [CallInject, CallInject, ScriptSettles goodLoader,
                            ScriptSettles goodLoader] (initialWorld, 0))) = 2"
  by (simp add: run_def injectFaceApi_begin_def injectFaceApi_settle_def emit_def injections_def
      modelLoads_def initialWorld_def goodLoader_def Let_def)

end
